theory Spec2Isabelle
  imports Main "HOL-Library.AList" "HOL-Library.Code_Target_Numeral"
begin

section \<open>Order ingestion and scan tracking of \<^verbatim>\<open>src/backend/app.py\<close>\<close>

text \<open>
  The Flask application keeps two module-level stores, \<^verbatim>\<open>orders_db\<close> (a dict from
  order id to an order dict) and \<^verbatim>\<open>logs_db\<close> (a list of log entries). The handlers
  \<^verbatim>\<open>upload_file\<close>, \<^verbatim>\<open>scan_order\<close>, \<^verbatim>\<open>get_orders\<close> and \<^verbatim>\<open>get_order\<close> are embedded
  below as functions that take the stores and return the response together with the
  updated stores. A Python dict is an association list in insertion order: assigning to
  an existing key replaces the value where it stands, assigning to a new key appends,
  which is \<^const>\<open>AList.update\<close>; a lookup is \<^const>\<open>map_of\<close>.
\<close>

subsection \<open>Cell values and the Python built-ins applied to them\<close>

text \<open>
  A cell of a data-frame row is \<^verbatim>\<open>None\<close> (a column that the sheet does not have, line
  152), \<^verbatim>\<open>NaN\<close> (an empty cell), a boolean, an integer, a float or a text.
  \<open>CFloat neg m e\<close> is the finite float of magnitude \<open>m * 2 ^ e\<close>, negative when \<open>neg\<close>
  holds; it is a binary64 value when \<open>m < 2 ^ 53\<close> and \<open>- 1074 \<le> e \<le> 971\<close>. Infinite
  floats and cells of other types (dates, times) are not part of this model. Texts are
  ASCII.
\<close>

datatype cell = CNone | CNaN | CBool bool | CInt int | CFloat bool nat int | CStr string

datatype py_error = TypeError | ValueError | OverflowError

text \<open>\<^verbatim>\<open>pd.notna(x)\<close>\<close>

fun notna :: "cell \<Rightarrow> bool" where
  "notna CNone = False"
| "notna CNaN = False"
| "notna (CBool b) = True"
| "notna (CInt n) = True"
| "notna (CFloat neg m e) = True"
| "notna (CStr s) = True"

text \<open>\<^verbatim>\<open>str(n)\<close> for an integer: decimal digits, a minus sign when negative.\<close>

definition digit_char :: "nat \<Rightarrow> char" where
  "digit_char d = ''0123456789'' ! d"

fun str_nat :: "nat \<Rightarrow> string" where
  "str_nat n = (if n < 10 then [digit_char n] else str_nat (n div 10) @ [digit_char (n mod 10)])"

declare str_nat.simps [simp del]

definition str_int :: "int \<Rightarrow> string" where
  "str_int i = (if i < 0 then CHR ''-'' # str_nat (nat (- i)) else str_nat (nat i))"

text \<open>
  Number parsing. \<^verbatim>\<open>int(s)\<close> and \<^verbatim>\<open>float(s)\<close> first strip white space (tab, line
  feed, vertical tab, form feed, carriage return, space) from both ends; an underscore
  is accepted only between two digits. The limit that recent Python
  versions put on the number of digits of \<^verbatim>\<open>int(s)\<close> (4300 by default) is not modelled.
\<close>

definition is_space :: "char \<Rightarrow> bool" where
  "is_space c \<longleftrightarrow> c \<in> set [CHR 0x09, CHR 0x0A, CHR 0x0B, CHR 0x0C, CHR 0x0D, CHR 0x20]"

definition strip :: "string \<Rightarrow> string" where
  "strip s = rev (dropWhile is_space (rev (dropWhile is_space s)))"

definition digit_val :: "char \<Rightarrow> nat option" where
  "digit_val c = map_of [(CHR ''0'', 0), (CHR ''1'', 1), (CHR ''2'', 2), (CHR ''3'', 3),
     (CHR ''4'', 4), (CHR ''5'', 5), (CHR ''6'', 6), (CHR ''7'', 7), (CHR ''8'', 8),
     (CHR ''9'', 9)] c"

definition is_digit :: "char \<Rightarrow> bool" where
  "is_digit c \<longleftrightarrow> digit_val c \<noteq> None"

text \<open>
  \<open>drop_underscores prev s\<close> removes the underscores of \<open>s\<close>, or fails when one of them
  does not stand between two digits; \<open>prev\<close> tells whether the character before \<open>s\<close> is a
  digit.
\<close>

fun drop_underscores :: "bool \<Rightarrow> string \<Rightarrow> string option" where
  "drop_underscores prev [] = Some []"
| "drop_underscores prev (c # cs) =
     (if c = CHR ''_'' then
        (case cs of
           [] \<Rightarrow> None
         | d # ds \<Rightarrow> if prev \<and> is_digit d then drop_underscores False cs else None)
      else map_option ((#) c) (drop_underscores (is_digit c) cs))"

text \<open>The value of a string of decimal digits read from the left, starting from \<open>acc\<close>.\<close>

fun digits_val :: "nat \<Rightarrow> string \<Rightarrow> nat option" where
  "digits_val acc [] = Some acc"
| "digits_val acc (c # cs) =
     (case digit_val c of None \<Rightarrow> None | Some d \<Rightarrow> digits_val (10 * acc + d) cs)"

text \<open>An optional sign: the sign as \<open>1\<close> or \<open>-1\<close> and the rest of the text.\<close>

fun take_sign :: "string \<Rightarrow> int \<times> string" where
  "take_sign [] = (1, [])"
| "take_sign (c # cs) =
     (if c = CHR ''-'' then (- 1, cs) else if c = CHR ''+'' then (1, cs) else (1, c # cs))"

text \<open>\<^verbatim>\<open>int(s)\<close> for a text \<open>s\<close>, base 10; \<open>None\<close> is the \<^verbatim>\<open>ValueError\<close>.\<close>

definition int_of_str :: "string \<Rightarrow> int option" where
  "int_of_str s =
     (case take_sign (strip s) of (sg, body) \<Rightarrow>
        (case drop_underscores False body of
           None \<Rightarrow> None
         | Some ds \<Rightarrow>
             if ds = [] then None
             else map_option (\<lambda>n. sg * int n) (digits_val 0 ds)))"

text \<open>The integer part of a float: \<^verbatim>\<open>int(x)\<close> rounds toward zero.\<close>

definition float_trunc :: "bool \<Rightarrow> nat \<Rightarrow> int \<Rightarrow> int" where
  "float_trunc neg m e =
     (let t = (if 0 \<le> e then m * 2 ^ nat e else m div 2 ^ nat (- e))
      in if neg then - int t else int t)"

text \<open>\<^verbatim>\<open>int(x)\<close> of a cell.\<close>

fun py_int :: "cell \<Rightarrow> py_error + int" where
  "py_int CNone = Inl TypeError"
| "py_int CNaN = Inl ValueError"
| "py_int (CBool b) = Inr (if b then 1 else 0)"
| "py_int (CInt n) = Inr n"
| "py_int (CFloat neg m e) = Inr (float_trunc neg m e)"
| "py_int (CStr s) = (case int_of_str s of None \<Rightarrow> Inl ValueError | Some n \<Rightarrow> Inr n)"

text \<open>
  \<^verbatim>\<open>int(float(x))\<close>. A Python float is an IEEE binary64 number. For the positive
  rational \<open>a / b\<close>, \<open>trunc_binary64 a b\<close> is the integer part of its nearest binary64
  value (53 significant bits, ties to the even significand); \<open>None\<close> when that value is
  infinite, where \<^verbatim>\<open>int\<close> raises \<^verbatim>\<open>OverflowError\<close>.
\<close>

fun bit_length :: "nat \<Rightarrow> nat" where
  "bit_length n = (if n = 0 then 0 else Suc (bit_length (n div 2)))"

declare bit_length.simps [simp del]

definition round_half_even :: "nat \<Rightarrow> nat \<Rightarrow> nat" where
  "round_half_even a b =
     (let q = a div b; r = a mod b
      in if b < 2 * r \<or> (2 * r = b \<and> odd q) then q + 1 else q)"

definition trunc_binary64 :: "nat \<Rightarrow> nat \<Rightarrow> nat option" where
  "trunc_binary64 a b =
     (let n = a div b in
      if n = 0 then Some (if (2 ^ 54 - 1) * b \<le> 2 ^ 54 * a then 1 else 0)
      else
        let l = bit_length n in
        if 53 < l then
          (let u = 2 ^ (l - 53); m = round_half_even a (b * u)
           in if 2 ^ 1024 \<le> m * u then None else Some (m * u))
        else
          (let k = 2 ^ (53 - l); m = round_half_even (a * k) b
           in Some (m div k)))"

definition lower_char :: "char \<Rightarrow> char" where
  "lower_char c =
     (let n = (of_char c :: nat) in if 65 \<le> n \<and> n \<le> 90 then char_of (n + 32) else c)"

text \<open>
  The exponent part of a float literal, which is all that may follow the mantissa:
  nothing, or \<^verbatim>\<open>e\<close> or \<^verbatim>\<open>E\<close>, an optional sign and at least one digit.
\<close>

fun parse_exponent :: "string \<Rightarrow> int option" where
  "parse_exponent [] = Some 0"
| "parse_exponent (c # cs) =
     (if c = CHR ''e'' \<or> c = CHR ''E'' then
        (case take_sign cs of (sg, ds) \<Rightarrow>
           if ds = [] then None else map_option (\<lambda>n. sg * int n) (digits_val 0 ds))
      else None)"

text \<open>
  An unsigned decimal literal as \<open>(m, e)\<close>, standing for \<open>m * 10 ^ e\<close>: digits, an
  optional point and digits (at least one digit in all), an optional exponent.
\<close>

definition decimal_of_str :: "string \<Rightarrow> (nat \<times> int) option" where
  "decimal_of_str s =
     (let ip = takeWhile is_digit s;
          r1 = dropWhile is_digit s;
          (fp, r2) = (case r1 of
                        [] \<Rightarrow> ([], [])
                      | c # cs \<Rightarrow>
                          if c = CHR ''.'' then (takeWhile is_digit cs, dropWhile is_digit cs)
                          else ([], r1))
      in if ip = [] \<and> fp = [] then None
         else (case (digits_val 0 (ip @ fp), parse_exponent r2) of
                 (Some m, Some e) \<Rightarrow> Some (m, e - int (length fp))
               | _ \<Rightarrow> None))"

text \<open>\<^verbatim>\<open>int(float(s))\<close> for a text \<open>s\<close>.\<close>

definition int_float_str :: "string \<Rightarrow> py_error + int" where
  "int_float_str s =
     (case drop_underscores False (strip s) of
        None \<Rightarrow> Inl ValueError
      | Some t \<Rightarrow>
          (case take_sign t of (sg, body) \<Rightarrow>
             let lb = map lower_char body in
             if lb = ''inf'' \<or> lb = ''infinity'' then Inl OverflowError
             else if lb = ''nan'' then Inl ValueError
             else
               (case decimal_of_str body of
                  None \<Rightarrow> Inl ValueError
                | Some (m, e) \<Rightarrow>
                    (case (if 0 \<le> e then trunc_binary64 (m * 10 ^ nat e) 1
                           else trunc_binary64 m (10 ^ nat (- e))) of
                       None \<Rightarrow> Inl OverflowError
                     | Some n \<Rightarrow> Inr (sg * int n)))))"

text \<open>\<^verbatim>\<open>int(float(x))\<close> of a cell.\<close>

fun int_float :: "cell \<Rightarrow> py_error + int" where
  "int_float CNone = Inl TypeError"
| "int_float CNaN = Inl ValueError"
| "int_float (CBool b) = Inr (if b then 1 else 0)"
| "int_float (CInt n) =
     (case trunc_binary64 (nat \<bar>n\<bar>) 1 of
        None \<Rightarrow> Inl OverflowError
      | Some t \<Rightarrow> Inr (sgn n * int t))"
| "int_float (CFloat neg m e) = Inr (float_trunc neg m e)"
| "int_float (CStr s) = int_float_str s"

text \<open>
  \<^verbatim>\<open>str(x)\<close> of a float is the shortest decimal numeral that reads back as \<open>x\<close>, the
  one nearest to \<open>x\<close> if there are several. With \<open>x = M * 2 ^ q\<close>, where \<open>2 ^ q\<close> is the
  distance from \<open>x\<close> to the next float above it, the numerals that read back as \<open>x\<close> lie
  between the midpoints to the two neighbours of \<open>x\<close>; a midpoint itself reads back as
  \<open>x\<close> when \<open>M\<close> is even.
\<close>

definition ulp_exponent :: "nat \<Rightarrow> int \<Rightarrow> int" where
  "ulp_exponent m e = max (e + int (bit_length m) - 53) (- 1074)"

definition significand :: "nat \<Rightarrow> int \<Rightarrow> nat" where
  "significand m e =
     (let q = ulp_exponent m e
      in if q \<le> e then m * 2 ^ nat (e - q) else m div 2 ^ nat (q - e))"

text \<open>The number of zeros between the point and the first digit of \<open>N / Q < 1\<close>, plus one.\<close>

function leading_zeros :: "nat \<Rightarrow> nat \<Rightarrow> nat \<Rightarrow> nat" where
  "leading_zeros N Q j = (if N = 0 \<or> Q \<le> N * 10 ^ j then j else leading_zeros N Q (Suc j))"
  by pat_completeness auto
termination
  by (relation "measure (\<lambda>(N, Q, j). Q - N * 10 ^ j)") (auto simp: diff_less_mono2)

declare leading_zeros.simps [simp del]

text \<open>The \<open>k\<close> with \<open>10 ^ (k - 1) \<le> N / Q < 10 ^ k\<close>.\<close>

definition decimal_exponent :: "nat \<Rightarrow> nat \<Rightarrow> int" where
  "decimal_exponent N Q =
     (if Q \<le> N then int (length (str_nat (N div Q))) else 1 - int (leading_zeros N Q 1))"

text \<open>
  The numeral \<open>c * 10 ^ j\<close> of \<open>n\<close> digits nearest to the float (ties to the even \<open>c\<close>)
  among those that read back as it, if there is one. All quantities are counted in
  quarters of \<open>2 ^ q\<close>, written as the fraction \<open>P / Q\<close>.
\<close>

definition nearest_decimal :: "nat \<Rightarrow> int \<Rightarrow> nat \<Rightarrow> (nat \<times> int) option" where
  "nearest_decimal m e n =
     (let q = ulp_exponent m e;
          M = significand m e;
          X = 4 * M;
          LO = X - (if M = 2 ^ 52 \<and> - 1074 < q then 1 else 2);
          HI = X + 2;
          s = q - 2;
          P = (if 0 \<le> s then 2 ^ nat s else 1);
          Q = (if 0 \<le> s then 1 else 2 ^ nat (- s));
          j = decimal_exponent (X * P) Q - int n;
          A = P * (if j < 0 then 10 ^ nat (- j) else 1);
          B = Q * (if 0 \<le> j then 10 ^ nat j else 1);
          c = X * A div B;
          inside = (\<lambda>d. if even M then LO * A \<le> d * B \<and> d * B \<le> HI * A
                         else LO * A < d * B \<and> d * B < HI * A);
          below = X * A - c * B;
          above = (c + 1) * B - X * A
      in if inside c \<and> inside (c + 1)
         then Some (if below < above \<or> (below = above \<and> even c) then c else c + 1, j)
         else if inside c then Some (c, j)
         else if inside (c + 1) then Some (c + 1, j)
         else None)"

fun strip_zeros :: "nat \<Rightarrow> int \<Rightarrow> nat \<times> int" where
  "strip_zeros c j = (if c \<noteq> 0 \<and> c mod 10 = 0 then strip_zeros (c div 10) (j + 1) else (c, j))"

declare strip_zeros.simps [simp del]

text \<open>
  The shortest numeral: the search starts from \<open>n\<close> digits; seventeen digits always
  suffice.
\<close>

function shortest_decimal :: "nat \<Rightarrow> int \<Rightarrow> nat \<Rightarrow> nat \<times> int" where
  "shortest_decimal m e n =
     (case nearest_decimal m e n of
        Some (c, j) \<Rightarrow> strip_zeros c j
      | None \<Rightarrow> if 17 \<le> n then (0, 0) else shortest_decimal m e (Suc n))"
  by pat_completeness auto
termination
  by (relation "measure (\<lambda>(m, e, n). 17 - n)") auto

declare shortest_decimal.simps [simp del]

definition float_digits :: "nat \<Rightarrow> int \<Rightarrow> nat \<times> int" where
  "float_digits m e = shortest_decimal m e 1"

text \<open>
  The layout: with the digits \<open>ds\<close> and the point after the first \<open>decpt\<close> of them,
  positional notation when \<open>- 4 < decpt \<le> 16\<close>, otherwise one digit before the point and
  an exponent of at least two digits.
\<close>

definition float_layout :: "string \<Rightarrow> int \<Rightarrow> string" where
  "float_layout ds decpt =
     (let nd = int (length ds) in
      if - 4 < decpt \<and> decpt \<le> 16 then
        (if decpt \<le> 0 then ''0.'' @ replicate (nat (- decpt)) (CHR ''0'') @ ds
         else if nd \<le> decpt then ds @ replicate (nat (decpt - nd)) (CHR ''0'') @ ''.0''
         else take (nat decpt) ds @ ''.'' @ drop (nat decpt) ds)
      else
        (let ex = decpt - 1; xs = str_nat (nat \<bar>ex\<bar>)
         in take 1 ds @ (if 1 < nd then ''.'' @ drop 1 ds else []) @ ''e'' @
            (if ex < 0 then ''-'' else ''+'') @ (if length xs < 2 then CHR ''0'' # xs else xs)))"

definition float_repr :: "bool \<Rightarrow> nat \<Rightarrow> int \<Rightarrow> string" where
  "float_repr neg m e =
     (if neg then ''-'' else []) @
     (if m = 0 then ''0.0''
      else (case float_digits m e of
              (c, j) \<Rightarrow> float_layout (str_nat c) (int (length (str_nat c)) + j)))"

text \<open>\<^verbatim>\<open>str(x)\<close> of a cell.\<close>

fun py_str :: "cell \<Rightarrow> string" where
  "py_str CNone = ''None''"
| "py_str CNaN = ''nan''"
| "py_str (CBool b) = (if b then ''True'' else ''False'')"
| "py_str (CInt n) = str_int n"
| "py_str (CFloat neg m e) = float_repr neg m e"
| "py_str (CStr s) = s"

text \<open>The format \<^verbatim>\<open>f"{n:,}"\<close>: decimal digits in groups of three, separated by commas.\<close>

fun group_nat :: "nat \<Rightarrow> string" where
  "group_nat n =
     (if n < 1000 then str_nat n
      else group_nat (n div 1000) @
           [CHR '','', digit_char (n mod 1000 div 100), digit_char (n mod 100 div 10),
            digit_char (n mod 10)])"

declare group_nat.simps [simp del]

definition fmt_comma :: "int \<Rightarrow> string" where
  "fmt_comma i = (if i < 0 then CHR ''-'' # group_nat (nat (- i)) else group_nat (nat i))"

text \<open>\<^verbatim>\<open>f"{int(float(x)):,}"\<close>, the rendering of \<^verbatim>\<open>Price\<close> and \<^verbatim>\<open>Payment\<close>.\<close>

definition money :: "cell \<Rightarrow> py_error + string" where
  "money c = (case int_float c of Inl e \<Rightarrow> Inl e | Inr n \<Rightarrow> Inr (fmt_comma n))"

subsection \<open>The stores\<close>

text \<open>
  A line item is the dict written at lines 168 to 174; \<^verbatim>\<open>ScanTimestamp\<close> is the key
  that only \<^verbatim>\<open>scan_order\<close> adds (line 216). An order is the dict written at lines 159
  to 165. \<^verbatim>\<open>Title\<close>, \<^verbatim>\<open>Color\<close>, \<^verbatim>\<open>State\<close> and \<^verbatim>\<open>City\<close> hold the cells of the row as
  they are.
\<close>

record item =
  Title :: cell
  Color :: cell
  Quantity :: int
  Scanned :: int
  Price :: string
  ScanTimestamp :: "string option"

record order =
  SKUs :: "(string \<times> item) list"
  State :: cell
  City :: cell
  Payment :: "string option"
  Status :: string

text \<open>
  A log entry (lines 21 to 27). \<^verbatim>\<open>details\<close> is \<^verbatim>\<open>None\<close>, a text, or \<^verbatim>\<open>str(e)\<close> of a
  caught exception \<open>e\<close>, which is kept as the exception's class.
\<close>

datatype details = NoDetails | Details string | ExceptionText py_error

record log_entry =
  log_id :: string
  timestamp :: string
  message :: string
  log_status :: string
  details :: details

record stores =
  orders_db :: "(string \<times> order) list"
  logs_db :: "log_entry list"

text \<open>
  What a handler reads from outside the stores while it runs: the value of
  \<^verbatim>\<open>uuid.uuid4()\<close> and the clock \<^verbatim>\<open>JalaliDatetime.now()\<close> in the two formats used,
  \<^verbatim>\<open>"%Y/%m/%d %H:%M:%S"\<close> (log entries) and \<^verbatim>\<open>"%Y/%m/%d %H:%M"\<close> (scan timestamps).
\<close>

record env =
  uuid4 :: string
  now_seconds :: string
  now_minutes :: string

text \<open>\<^verbatim>\<open>add_log\<close> (lines 19 to 29); the entry it returns is not used by any caller.\<close>

definition add_log :: "env \<Rightarrow> string \<Rightarrow> string \<Rightarrow> details \<Rightarrow> log_entry list \<Rightarrow> log_entry list" where
  "add_log e msg st det logs =
     logs @ [\<lparr>log_id = uuid4 e, timestamp = now_seconds e, message = msg,
              log_status = st, details = det\<rparr>]"

text \<open>
  The responses, by their HTTP status and \<^verbatim>\<open>message\<close>:
  \<open>UploadOk n\<close> is 200 with \<^verbatim>\<open>processed_count\<close> \<open>n\<close>; \<open>NoFileProvided\<close> and
  \<open>InvalidFileFormat\<close> are 400; \<open>ProcessingError e\<close> is 500 with
  \<^verbatim>\<open>f'Error processing file: {str(e)}'\<close>; \<open>ScanOk\<close> is 200; \<open>MissingRequiredFields\<close> is
  400; \<open>OrderOrSkuNotFound\<close> and \<open>OrderNotFound\<close> are 404; \<open>OrderData\<close> and \<open>OrdersData\<close>
  are 200 with the \<^verbatim>\<open>data\<close> they carry.
\<close>

record line =
  id' :: string
  sku :: string
  title :: cell
  color :: cell
  quantity :: int
  scanned :: int
  status :: string
  price :: string
  state :: cell
  city :: cell
  payment :: "string option"

datatype response =
    UploadOk nat
  | NoFileProvided
  | InvalidFileFormat
  | ProcessingError py_error
  | ScanOk
  | MissingRequiredFields
  | OrderOrSkuNotFound
  | OrderNotFound
  | OrderData order
  | OrdersData "line list"

fun http_status :: "response \<Rightarrow> nat" where
  "http_status (UploadOk n) = 200"
| "http_status NoFileProvided = 400"
| "http_status InvalidFileFormat = 400"
| "http_status (ProcessingError e) = 500"
| "http_status ScanOk = 200"
| "http_status MissingRequiredFields = 400"
| "http_status OrderOrSkuNotFound = 404"
| "http_status OrderNotFound = 404"
| "http_status (OrderData d) = 200"
| "http_status (OrdersData d) = 200"

subsection \<open>\<^verbatim>\<open>upload_file\<close>\<close>

text \<open>
  A row is a pandas series indexed by column name. After the renaming loop (lines 148
  to 152) every row has the nine English columns, a column the sheet lacks holding
  \<^verbatim>\<open>None\<close>; \<open>row_of\<close> builds such a row from the cells that are given.
\<close>

type_synonym row = "string \<Rightarrow> cell"

definition row_of :: "(string \<times> cell) list \<Rightarrow> row" where
  "row_of cells = (\<lambda>col. case map_of cells col of None \<Rightarrow> CNone | Some v \<Rightarrow> v)"

text \<open>
  The three conditional expressions of lines 163, 171 and 173, each guarded by
  \<^verbatim>\<open>pd.notna\<close>.
\<close>

definition payment_of :: "cell \<Rightarrow> py_error + string option" where
  "payment_of c =
     (if notna c then (case money c of Inl e \<Rightarrow> Inl e | Inr t \<Rightarrow> Inr (Some t))
      else Inr None)"

definition quantity_of :: "cell \<Rightarrow> py_error + int" where
  "quantity_of c = (if notna c then py_int c else Inr 0)"

definition price_of :: "cell \<Rightarrow> py_error + string" where
  "price_of c = (if notna c then money c else Inr ''0'')"

text \<open>The order dict of lines 159 to 165; the \<^verbatim>\<open>Payment\<close> conversion may raise.\<close>

definition new_order :: "row \<Rightarrow> py_error + order" where
  "new_order r =
     (case payment_of (r ''Payment'') of
        Inl e \<Rightarrow> Inl e
      | Inr p \<Rightarrow>
          Inr \<lparr>SKUs = [], State = r ''State'', City = r ''City'', Payment = p,
               Status = ''Pending''\<rparr>)"

text \<open>
  The line-item dict of lines 168 to 174. The dict display is evaluated top to bottom,
  so a failing \<^verbatim>\<open>Quantity\<close> is raised before \<^verbatim>\<open>Price\<close> is looked at.
\<close>

definition new_item :: "row \<Rightarrow> py_error + item" where
  "new_item r =
     (case quantity_of (r ''Quantity'') of
        Inl e \<Rightarrow> Inl e
      | Inr q \<Rightarrow>
          (case price_of (r ''Price'') of
             Inl e \<Rightarrow> Inl e
           | Inr p \<Rightarrow>
               Inr \<lparr>Title = r ''Title'', Color = r ''Color'', Quantity = q, Scanned = 0,
                    Price = p, ScanTimestamp = None\<rparr>))"

text \<open>\<^verbatim>\<open>orders_db[order_id]['SKUs'][sku] = it\<close>, for an \<open>order_id\<close> that is a key.\<close>

definition set_item :: "string \<Rightarrow> string \<Rightarrow> item \<Rightarrow> (string \<times> order) list \<Rightarrow> (string \<times> order) list" where
  "set_item order_id k it db =
     AList.map_entry order_id (\<lambda>ord. ord\<lparr>SKUs := AList.update k it (SKUs ord)\<rparr>) db"

text \<open>
  One pass of the loop body (lines 157 to 175) over the orders: the orders as the body
  leaves them, and the exception if it raised one. An exception in the line-item dict
  comes after a new order has been stored at line 159, and that order stays.
\<close>

definition process_row :: "(string \<times> order) list \<Rightarrow> row \<Rightarrow> (string \<times> order) list \<times> py_error option" where
  "process_row db r =
     (let order_id = py_str (r ''OrderID'') in
      case (if map_of db order_id = None
            then (case new_order r of
                    Inl e \<Rightarrow> Inl e
                  | Inr ord \<Rightarrow> Inr (AList.update order_id ord db))
            else Inr db) of
        Inl e \<Rightarrow> (db, Some e)
      | Inr db1 \<Rightarrow>
          (let k = py_str (r ''SKU'') in
           case new_item r of
             Inl e \<Rightarrow> (db1, Some e)
           | Inr it \<Rightarrow> (set_item order_id k it db1, None)))"

text \<open>
  The loop of lines 155 to 175 from \<open>processed_count = n\<close>: it ends with the count, or
  with the first exception, which leaves the loop.
\<close>

fun process_rows :: "(string \<times> order) list \<Rightarrow> nat \<Rightarrow> row list \<Rightarrow> (string \<times> order) list \<times> (py_error + nat)" where
  "process_rows db n [] = (db, Inr n)"
| "process_rows db n (r # rs) =
     (case process_row db r of
        (db', Some e) \<Rightarrow> (db', Inl e)
      | (db', None) \<Rightarrow> process_rows db' (n + 1) rs)"

text \<open>
  Lines 154 to 191: the loop inside \<^verbatim>\<open>try\<close>, then the success log and response, or
  the \<^verbatim>\<open>except\<close> branch with its log and response.
\<close>

definition process_orders :: "env \<Rightarrow> row list \<Rightarrow> stores \<Rightarrow> response \<times> stores" where
  "process_orders e rows s =
     (case process_rows (orders_db s) 0 rows of
        (db, Inr n) \<Rightarrow>
          (UploadOk n,
           \<lparr>orders_db = db,
            logs_db = add_log e ''File uploaded successfully'' ''success''
                        (Details (''Processed '' @ str_nat n @ '' orders'')) (logs_db s)\<rparr>)
      | (db, Inl err) \<Rightarrow>
          (ProcessingError err,
           \<lparr>orders_db = db,
            logs_db = add_log e ''File processing failed'' ''error''
                        (ExceptionText err) (logs_db s)\<rparr>))"

text \<open>
  The request of \<^verbatim>\<open>upload_file\<close>: no \<^verbatim>\<open>file\<close> part, or a file with its name and the
  rows that \<^verbatim>\<open>pd.read_excel\<close> and the renaming loop make of it. Saving and reading the
  file (lines 125 to 132) are not modelled.
\<close>

datatype upload = NoFile | File string "row list"

definition endswith :: "string \<Rightarrow> string \<Rightarrow> bool" where
  "endswith s suffix \<longleftrightarrow> length suffix \<le> length s \<and> drop (length s - length suffix) s = suffix"

fun upload_file :: "env \<Rightarrow> upload \<Rightarrow> stores \<Rightarrow> response \<times> stores" where
  "upload_file e NoFile s =
     (NoFileProvided,
      s\<lparr>logs_db := add_log e ''File upload failed'' ''error'' (Details ''No file provided'')
                     (logs_db s)\<rparr>)"
| "upload_file e (File filename rows) s =
     (if \<not> endswith filename ''.xlsx'' then
        (InvalidFileFormat,
         s\<lparr>logs_db := add_log e ''File upload failed'' ''error''
                        (Details ''Invalid file format'') (logs_db s)\<rparr>)
      else process_orders e rows s)"

subsection \<open>\<^verbatim>\<open>scan_order\<close>\<close>

text \<open>
  \<^verbatim>\<open>orderId\<close> and \<^verbatim>\<open>sku\<close> are what \<^verbatim>\<open>data.get\<close> returns: \<^verbatim>\<open>None\<close> for a missing key,
  otherwise the text sent. JSON values of other types are not modelled. The test
  \<^verbatim>\<open>not order_id or not sku\<close> (line 200) holds for \<^verbatim>\<open>None\<close> and for the empty text.
\<close>

fun scan_order :: "env \<Rightarrow> string option \<Rightarrow> string option \<Rightarrow> stores \<Rightarrow> response \<times> stores" where
  "scan_order e (Some order_id) (Some k) s =
     (if order_id = [] \<or> k = [] then (MissingRequiredFields, s)
      else
        (case map_of (orders_db s) order_id of
           None \<Rightarrow> (OrderOrSkuNotFound, s)
         | Some ord \<Rightarrow>
             (case map_of (SKUs ord) k of
                None \<Rightarrow> (OrderOrSkuNotFound, s)
              | Some it \<Rightarrow>
                  (let n = Scanned it + 1;
                       it' = it\<lparr>Scanned := n, ScanTimestamp := Some (now_minutes e)\<rparr>
                   in (ScanOk,
                       \<lparr>orders_db = set_item order_id k it' (orders_db s),
                        logs_db = add_log e (''Item scanned: Order '' @ order_id @ '', SKU '' @ k)
                                    ''success'' (Details (''Scanned count: '' @ str_int n))
                                    (logs_db s)\<rparr>)))))"
| "scan_order e _ _ s = (MissingRequiredFields, s)"

subsection \<open>\<^verbatim>\<open>get_orders\<close> and \<^verbatim>\<open>get_order\<close>\<close>

text \<open>The two nested loops of lines 68 to 83, in the iteration order of the dicts.\<close>

definition line_of :: "string \<Rightarrow> order \<Rightarrow> string \<Rightarrow> item \<Rightarrow> line" where
  "line_of order_id order_data k d =
     \<lparr>id' = order_id, sku = k, title = Title d, color = Color d, quantity = Quantity d,
      scanned = Scanned d,
      status = (if Quantity d \<le> Scanned d then ''Fulfilled'' else ''Pending''),
      price = Price d, state = State order_data, city = City order_data,
      payment = Payment order_data\<rparr>"

definition orders_list :: "(string \<times> order) list \<Rightarrow> line list" where
  "orders_list db =
     concat (map (\<lambda>(order_id, order_data).
                    map (\<lambda>(k, d). line_of order_id order_data k d) (SKUs order_data)) db)"

definition get_orders :: "stores \<Rightarrow> response \<times> stores" where
  "get_orders s = (OrdersData (orders_list (orders_db s)), s)"

definition get_order :: "string \<Rightarrow> stores \<Rightarrow> response \<times> stores" where
  "get_order order_id s =
     (case map_of (orders_db s) order_id of
        None \<Rightarrow> (OrderNotFound, s)
      | Some ord \<Rightarrow> (OrderData ord, s))"

subsection \<open>Sequences of requests\<close>

datatype request =
    Upload upload
  | Scan "string option" "string option"
  | GetOrders
  | GetOrder string

fun handle :: "env \<Rightarrow> request \<Rightarrow> stores \<Rightarrow> response \<times> stores" where
  "handle e (Upload u) s = upload_file e u s"
| "handle e (Scan order_id k) s = scan_order e order_id k s"
| "handle e GetOrders s = get_orders s"
| "handle e (GetOrder order_id) s = get_order order_id s"

text \<open>
  A sequence of requests, each with what it reads from outside: the responses in order
  and the stores at the end.
\<close>

fun run :: "(env \<times> request) list \<Rightarrow> stores \<Rightarrow> response list \<times> stores" where
  "run [] s = ([], s)"
| "run ((e, q) # qs) s =
     (case handle e q s of
        (resp, s') \<Rightarrow> (case run qs s' of (resps, s'') \<Rightarrow> (resp # resps, s'')))"


definition init :: stores where
  "init = \<lparr>orders_db = [], logs_db = []\<rparr>"

subsection \<open>Observations used in the statements\<close>

text \<open>\<^verbatim>\<open>orders_db[order_id]['SKUs'][k]\<close>, when both keys are there.\<close>

definition lookup_item :: "(string \<times> order) list \<Rightarrow> string \<Rightarrow> string \<Rightarrow> item option" where
  "lookup_item db order_id k =
     (case map_of db order_id of None \<Rightarrow> None | Some ord \<Rightarrow> map_of (SKUs ord) k)"

text \<open>The keys of a Python dict are unique, at both levels of \<^verbatim>\<open>orders_db\<close>.\<close>

definition wf_db :: "(string \<times> order) list \<Rightarrow> bool" where
  "wf_db db \<longleftrightarrow> distinct (map fst db) \<and> list_all (\<lambda>(order_id, ord). distinct (map fst (SKUs ord))) db"

text \<open>Rows and an environment for the concrete runs below.\<close>

definition env0 :: env where
  "env0 = \<lparr>uuid4 = ''u0'', now_seconds = ''1403/01/01 10:00:00'', now_minutes = ''1403/01/01 10:00''\<rparr>"

definition row_a1 :: row where
  "row_a1 = row_of [(''OrderID'', CInt 1001), (''SKU'', CStr ''A1''), (''Title'', CStr ''Shirt''),
     (''Color'', CStr ''Blue''), (''Quantity'', CInt 3), (''Price'', CInt 15000),
     (''State'', CStr ''Tehran''), (''City'', CStr ''Tehran''), (''Payment'', CInt 20000)]"

definition row_a2 :: row where
  "row_a2 = row_of [(''OrderID'', CInt 1001), (''SKU'', CStr ''A2''), (''Title'', CStr ''Scarf''),
     (''Color'', CStr ''Red''), (''Quantity'', CInt 1), (''Price'', CInt 5000),
     (''State'', CStr ''Fars''), (''City'', CStr ''Shiraz''), (''Payment'', CInt 7000)]"

definition item_a1 :: item where
  "item_a1 = \<lparr>Title = CStr ''Shirt'', Color = CStr ''Blue'', Quantity = 3, Scanned = 0,
     Price = ''15,000'', ScanTimestamp = None\<rparr>"

definition upload_a1 :: "env \<times> request" where
  "upload_a1 = (env0, Upload (File ''orders.xlsx'' [row_a1]))"

definition scan_a1 :: "env \<times> request" where
  "scan_a1 = (env0, Scan (Some ''1001'') (Some ''A1''))"

definition stores_a1 :: stores where
  "stores_a1 = snd (run [upload_a1] init)"

definition stores_a1_scanned :: stores where
  "stores_a1_scanned = snd (run [upload_a1, scan_a1] init)"

definition row_bad :: row where
  "row_bad = row_of [(''OrderID'', CInt 2002), (''SKU'', CStr ''B1''), (''Quantity'', CStr ''abc''),
     (''Price'', CInt 100)]"

definition row_nan_id :: row where
  "row_nan_id = row_of [(''OrderID'', CNaN), (''SKU'', CStr ''C1''), (''Quantity'', CInt 1),
     (''Price'', CInt 100)]"

definition order_a1 :: order where
  "order_a1 = \<lparr>SKUs = [(''A1'', item_a1)], State = CStr ''Tehran'', City = CStr ''Tehran'',
     Payment = Some ''20,000'', Status = ''Pending''\<rparr>"


definition stores_a12 :: stores where
  "stores_a12 = snd (run [(env0, Upload (File ''orders.xlsx'' [row_a1, row_a2])), scan_a1, scan_a1,
     scan_a1] init)"

section \<open>Facts about the stores\<close>

subsection \<open>Updates of the nested dicts, unique keys\<close>

lemma map_fst_map_entry: "map fst (AList.map_entry k f xs) = map fst xs"
  by (induction xs) auto

lemma keys_set_item: "map fst (set_item a b it db) = map fst db"
  by (simp add: set_item_def map_fst_map_entry)

lemma map_of_set_item:
  "map_of (set_item a b it db) x =
     (if x = a then map_option (\<lambda>ord. ord\<lparr>SKUs := AList.update b it (SKUs ord)\<rparr>) (map_of db a)
      else map_of db x)"
  by (simp add: set_item_def map_of_map_entry split: option.splits)

lemma lookup_item_set_item:
  "map_of db a \<noteq> None \<Longrightarrow>
   lookup_item (set_item a b it db) x y =
     (if x = a \<and> y = b then Some it else lookup_item db x y)"
  by (auto simp: lookup_item_def map_of_set_item update_conv' split: option.splits)

lemma set_set_item:
  "(x, ord') \<in> set (set_item a b it db) \<Longrightarrow>
   \<exists>ord. (x, ord) \<in> set db \<and> (ord' = ord \<or> ord' = ord\<lparr>SKUs := AList.update b it (SKUs ord)\<rparr>)"
  unfolding set_item_def by (induction db) (auto split: if_splits)

lemma wf_db_set_item:
  assumes "wf_db db"
  shows "wf_db (set_item a b it db)"
proof -
  have keys: "distinct (map fst (set_item a b it db))"
    using assms by (simp add: wf_db_def keys_set_item)
  have "distinct (map fst (SKUs ord'))" if "(x, ord') \<in> set (set_item a b it db)" for x ord'
  proof -
    from set_set_item [OF that] obtain ord where
      mem: "(x, ord) \<in> set db" and
      eq: "ord' = ord \<or> ord' = ord\<lparr>SKUs := AList.update b it (SKUs ord)\<rparr>"
      by blast
    from mem assms have "distinct (map fst (SKUs ord))"
      by (auto simp: wf_db_def list_all_iff)
    with eq show ?thesis
      by (auto intro: distinct_update)
  qed
  with keys show ?thesis
    by (auto simp: wf_db_def list_all_iff)
qed

lemma wf_db_update:
  "wf_db db \<Longrightarrow> distinct (map fst (SKUs ord)) \<Longrightarrow> wf_db (AList.update a ord db)"
  unfolding wf_db_def list_all_iff
  by (induction db) (auto simp: distinct_update dom_update split: if_splits)

lemma new_order_SKUs: "new_order r = Inr ord \<Longrightarrow> SKUs ord = []"
  by (auto simp: new_order_def split: sum.splits)

lemma wf_db_process_row: "wf_db db \<Longrightarrow> wf_db (fst (process_row db r))"
  by (auto simp: process_row_def Let_def wf_db_set_item wf_db_update new_order_SKUs
      split: sum.splits if_splits)

lemma wf_db_process_rows: "wf_db db \<Longrightarrow> wf_db (fst (process_rows db n rs))"
proof (induction rs arbitrary: db n)
  case Nil
  then show ?case by simp
next
  case (Cons r rs)
  from Cons.prems have "wf_db (fst (process_row db r))"
    by (rule wf_db_process_row)
  with Cons.IH show ?case
    by (auto split: prod.splits option.splits)
qed

lemma wf_db_scan_order: "wf_db (orders_db s) \<Longrightarrow> wf_db (orders_db (snd (scan_order e a b s)))"
  by (cases "(e, a, b, s)" rule: scan_order.cases)
     (auto simp: Let_def wf_db_set_item split: option.splits)

lemma wf_db_handle: "wf_db (orders_db s) \<Longrightarrow> wf_db (orders_db (snd (handle e q s)))"
proof (cases q)
  case (Upload u)
  assume wf: "wf_db (orders_db s)"
  show ?thesis
  proof (cases u)
    case NoFile
    with Upload wf show ?thesis by simp
  next
    case (File fn rows)
    with Upload wf wf_db_process_rows [of "orders_db s" 0 rows] show ?thesis
      by (auto simp: process_orders_def split: prod.splits sum.splits)
  qed
qed (auto simp: wf_db_scan_order get_orders_def get_order_def split: option.splits)

subsection \<open>Scans and sequences of requests\<close>

lemma snd_run_Cons: "snd (run ((e, q) # qs) s) = snd (run qs (snd (handle e q s)))"
  by (simp split: prod.splits)

lemma wf_db_run: "wf_db (orders_db s) \<Longrightarrow> wf_db (orders_db (snd (run qs s)))"
proof (induction qs arbitrary: s)
  case Nil
  then show ?case by simp
next
  case (Cons p qs)
  obtain e q where p: "p = (e, q)" by (cases p)
  from Cons.prems have "wf_db (orders_db (snd (handle e q s)))"
    by (rule wf_db_handle)
  from Cons.IH [OF this] p show ?case
    by (simp only: snd_run_Cons)
qed

lemma lookup_item_Some_order: "lookup_item db a b = Some it \<Longrightarrow> map_of db a \<noteq> None"
  by (auto simp: lookup_item_def split: option.splits)

lemma scan_order_found:
  assumes "a \<noteq> []" "b \<noteq> []" "lookup_item (orders_db s) a b = Some it"
  shows "scan_order e (Some a) (Some b) s =
     (ScanOk,
      \<lparr>orders_db = set_item a b (it\<lparr>Scanned := Scanned it + 1,
                                    ScanTimestamp := Some (now_minutes e)\<rparr>) (orders_db s),
       logs_db = add_log e (''Item scanned: Order '' @ a @ '', SKU '' @ b) ''success''
                   (Details (''Scanned count: '' @ str_int (Scanned it + 1))) (logs_db s)\<rparr>)"
  using assms by (auto simp: lookup_item_def Let_def split: option.splits)

lemma scan_order_not_found:
  assumes "a \<noteq> []" "b \<noteq> []" "lookup_item (orders_db s) a b = None"
  shows "scan_order e (Some a) (Some b) s = (OrderOrSkuNotFound, s)"
  using assms by (auto simp: lookup_item_def Let_def split: option.splits)

lemma scan_order_missing:
  assumes "x = None \<or> x = Some [] \<or> y = None \<or> y = Some []"
  shows "scan_order e x y s = (MissingRequiredFields, s)"
  using assms by (cases "(e, x, y, s)" rule: scan_order.cases) auto




lemma process_row_ok:
  assumes "process_row db r = (db', None)"
  shows "\<exists>it. new_item r = Inr it \<and>
     lookup_item db' (py_str (r ''OrderID'')) (py_str (r ''SKU'')) = Some it"
  using assms
  by (auto simp: process_row_def Let_def lookup_item_def map_of_set_item update_conv'
      split: sum.splits if_splits option.splits)


lemma fst_run_Cons: "fst (run ((e, q) # qs) s) = fst (handle e q s) # fst (run qs (snd (handle e q s)))"
  by (simp split: prod.splits)

lemma map_of_None_iff_keys: "map_of al k = None \<longleftrightarrow> k \<notin> fst ` set al"
  by (simp add: map_of_eq_None_iff)

lemma scan_order_found_lookup:
  assumes "a \<noteq> []" "b \<noteq> []" "lookup_item (orders_db s) a b = Some it"
  shows "lookup_item (orders_db (snd (scan_order e (Some a) (Some b) s))) x y =
     (if x = a \<and> y = b
      then Some (it\<lparr>Scanned := Scanned it + 1, ScanTimestamp := Some (now_minutes e)\<rparr>)
      else lookup_item (orders_db s) x y)"
  using scan_order_found [OF assms] lookup_item_Some_order [OF assms(3)]
  by (simp add: lookup_item_set_item)

lemma repeated_scans:
  assumes "a \<noteq> []" "b \<noteq> []" "lookup_item (orders_db s) a b = Some it"
  shows "\<exists>it'. fst (run (map (\<lambda>e. (e, Scan (Some a) (Some b))) es) s) = replicate (length es) ScanOk \<and>
     lookup_item (orders_db (snd (run (map (\<lambda>e. (e, Scan (Some a) (Some b))) es) s))) a b = Some it' \<and>
     Scanned it' = Scanned it + int (length es) \<and> Quantity it' = Quantity it \<and>
     length (logs_db (snd (run (map (\<lambda>e. (e, Scan (Some a) (Some b))) es) s))) =
       length (logs_db s) + length es"
  using assms(3)
proof (induction es arbitrary: s it)
  case Nil
  then show ?case by simp
next
  case (Cons e es)
  let ?s1 = "snd (scan_order e (Some a) (Some b) s)"
  let ?it1 = "it\<lparr>Scanned := Scanned it + 1, ScanTimestamp := Some (now_minutes e)\<rparr>"
  have ok: "fst (scan_order e (Some a) (Some b) s) = ScanOk"
    using scan_order_found [OF assms(1,2) Cons.prems] by simp
  have logs: "length (logs_db ?s1) = length (logs_db s) + 1"
    using scan_order_found [OF assms(1,2) Cons.prems] by (simp add: add_log_def)
  have look: "lookup_item (orders_db ?s1) a b = Some ?it1"
    using scan_order_found_lookup [OF assms(1,2) Cons.prems] by simp
  from Cons.IH [OF look] obtain it' where
    it': "fst (run (map (\<lambda>e. (e, Scan (Some a) (Some b))) es) ?s1) = replicate (length es) ScanOk"
      "lookup_item (orders_db (snd (run (map (\<lambda>e. (e, Scan (Some a) (Some b))) es) ?s1))) a b = Some it'"
      "Scanned it' = Scanned ?it1 + int (length es)" "Quantity it' = Quantity ?it1"
      "length (logs_db (snd (run (map (\<lambda>e. (e, Scan (Some a) (Some b))) es) ?s1))) =
         length (logs_db ?s1) + length es"
    by blast
  from it' ok logs show ?case
    by (simp add: fst_run_Cons snd_run_Cons del: run.simps scan_order.simps)
qed

subsection \<open>The loop of \<^verbatim>\<open>upload_file\<close>\<close>

lemma process_rows_Inr: "process_rows db n rows = (db', Inr m) \<Longrightarrow> m = n + length rows"
proof (induction rows arbitrary: db n)
  case Nil
  then show ?case by simp
next
  case (Cons r rows)
  then obtain db1 where "process_row db r = (db1, None)"
    and "process_rows db1 (n + 1) rows = (db', Inr m)"
    by (auto split: prod.splits option.splits)
  from Cons.IH [OF this(2)] show ?case by simp
qed

lemma process_rows_append:
  "process_rows db n pre = (dbp, Inr m) \<Longrightarrow> process_rows db n (pre @ rest) = process_rows dbp m rest"
  by (induction pre arbitrary: db n) (auto split: prod.splits option.splits)

lemma process_rows_Inl:
  "process_rows db n rows = (db', Inl err) \<Longrightarrow>
   \<exists>pre r post dbp. rows = pre @ r # post \<and> process_rows db n pre = (dbp, Inr (n + length pre)) \<and>
     process_row dbp r = (db', Some err)"
proof (induction rows arbitrary: db n)
  case Nil
  then show ?case by simp
next
  case (Cons r rows)
  obtain db1 res where step: "process_row db r = (db1, res)"
    by (cases "process_row db r")
  show ?case
  proof (cases res)
    case None
    with Cons.prems step have "process_rows db1 (n + 1) rows = (db', Inl err)"
      by simp
    from Cons.IH [OF this] obtain pre x post dbp where
      "rows = pre @ x # post" "process_rows db1 (n + 1) pre = (dbp, Inr (n + 1 + length pre))"
      "process_row dbp x = (db', Some err)"
      by blast
    with step None have "r # rows = (r # pre) @ x # post \<and>
      process_rows db n (r # pre) = (dbp, Inr (n + length (r # pre))) \<and>
      process_row dbp x = (db', Some err)"
      by simp
    then show ?thesis by blast
  next
    case (Some e)
    with Cons.prems step have "r # rows = [] @ r # rows \<and>
      process_rows db n [] = (db, Inr (n + length ([] :: row list))) \<and>
      process_row db r = (db', Some err)"
      by simp
    then show ?thesis by blast
  qed
qed

lemma process_rows_fail:
  assumes "process_rows db n pre = (dbp, Inr m)" "process_row dbp r = (dbf, Some err)"
  shows "process_rows db n (pre @ r # post) = (dbf, Inl err)"
  using process_rows_append [OF assms(1), of "r # post"] assms(2) by simp

lemma process_row_fail_frame:
  assumes "process_row db r = (db', Some err)" "map_of db a = Some ord"
  shows "map_of db' a = Some ord"
  using assms
  by (auto simp: process_row_def Let_def update_conv' split: sum.splits if_splits)

lemma process_row_order_fields:
  assumes "map_of db a = Some ord"
  shows "\<exists>ord'. map_of (fst (process_row db r)) a = Some ord' \<and> State ord' = State ord \<and>
     City ord' = City ord \<and> Payment ord' = Payment ord \<and> Status ord' = Status ord"
  using assms
  by (auto simp: process_row_def Let_def update_conv' map_of_set_item split: sum.splits if_splits)

lemma process_rows_order_fields:
  assumes "map_of db a = Some ord"
  shows "\<exists>ord'. map_of (fst (process_rows db n rows)) a = Some ord' \<and> State ord' = State ord \<and>
     City ord' = City ord \<and> Payment ord' = Payment ord \<and> Status ord' = Status ord"
  using assms
proof (induction rows arbitrary: db n ord)
  case Nil
  then show ?case by simp
next
  case (Cons r rows)
  obtain db1 res where step: "process_row db r = (db1, res)"
    by (cases "process_row db r")
  from process_row_order_fields [OF Cons.prems, of r] step obtain ord1 where
    ord1: "map_of db1 a = Some ord1" "State ord1 = State ord" "City ord1 = City ord"
      "Payment ord1 = Payment ord" "Status ord1 = Status ord"
    by auto
  show ?case
  proof (cases res)
    case None
    from Cons.IH [OF ord1(1), of "n + 1"] ord1(2-) step None show ?thesis by auto
  next
    case (Some e)
    with step ord1 show ?thesis by auto
  qed
qed

lemma process_row_new_order:
  assumes "map_of db (py_str (r ''OrderID'')) = None" "process_row db r = (db', None)"
  shows "\<exists>ord'. map_of db' (py_str (r ''OrderID'')) = Some ord' \<and> State ord' = r ''State'' \<and>
     City ord' = r ''City'' \<and> payment_of (r ''Payment'') = Inr (Payment ord') \<and>
     Status ord' = ''Pending'' \<and> map fst (SKUs ord') = [py_str (r ''SKU'')]"
  using assms
  by (auto simp: process_row_def Let_def update_conv' map_of_set_item new_order_def
      split: sum.splits if_splits)

lemma process_row_succeeds:
  assumes "payment_of (r ''Payment'') = Inr p" "new_item r = Inr it"
  shows "snd (process_row db r) = None"
  using assms
  by (auto simp: process_row_def Let_def new_order_def split: sum.splits if_splits)




lemma scan_order_ok:
  assumes "scan_order e x y s = (ScanOk, s')"
  shows "\<exists>a b it. x = Some a \<and> y = Some b \<and> a \<noteq> [] \<and> b \<noteq> [] \<and>
     lookup_item (orders_db s) a b = Some it"
proof (cases "x = None \<or> x = Some [] \<or> y = None \<or> y = Some []")
  case True
  from scan_order_missing [OF this, of e s] assms show ?thesis by simp
next
  case False
  then obtain a b where ab: "x = Some a" "y = Some b" "a \<noteq> []" "b \<noteq> []"
    by (cases x; cases y) auto
  show ?thesis
  proof (cases "lookup_item (orders_db s) a b")
    case None
    from scan_order_not_found [OF ab(3,4) None, of e] assms ab show ?thesis by simp
  next
    case (Some it)
    with ab show ?thesis by simp
  qed
qed

subsection \<open>The lines of \<^verbatim>\<open>get_orders\<close>\<close>

lemma set_orders_list:
  "set (orders_list db) = {line_of a ord k d | a ord k d. (a, ord) \<in> set db \<and> (k, d) \<in> set (SKUs ord)}"
  by (auto simp: orders_list_def)

lemma line_of_fields [simp]:
  "id' (line_of a ord k d) = a" "sku (line_of a ord k d) = k"
  by (simp_all add: line_of_def)

lemma keys_orders_list:
  "map (\<lambda>l. (id' l, sku l)) (orders_list db) =
     concat (map (\<lambda>(a, ord). map (\<lambda>k. (a, k)) (map fst (SKUs ord))) db)"
  by (induction db) (auto simp: orders_list_def comp_def case_prod_beta)

lemma distinct_keys_orders_list:
  assumes "wf_db db"
  shows "distinct (map (\<lambda>l. (id' l, sku l)) (orders_list db))"
  unfolding keys_orders_list using assms
proof (induction db)
  case Nil
  then show ?case by simp
next
  case (Cons p db)
  obtain a ord where p: "p = (a, ord)" by (cases p)
  from Cons.prems p have wf: "wf_db db" and new: "a \<notin> fst ` set db"
    and skus: "distinct (map fst (SKUs ord))"
    by (auto simp: wf_db_def)
  from skus have here: "distinct (map (\<lambda>k. (a, k)) (map fst (SKUs ord)))"
    by (simp add: distinct_map inj_on_def)
  from new have apart:
    "set (map (\<lambda>k. (a, k)) (map fst (SKUs ord))) \<inter>
     set (concat (map (\<lambda>(a, ord). map (\<lambda>k. (a, k)) (map fst (SKUs ord))) db)) = {}"
    by force
  from Cons.IH [OF wf] here apart p show ?case
    by simp
qed

lemma lookup_item_member:
  assumes "distinct (map fst db)" "(a, ord) \<in> set db" "distinct (map fst (SKUs ord))"
    "(k, d) \<in> set (SKUs ord)"
  shows "map_of db a = Some ord \<and> map_of (SKUs ord) k = Some d"
  using assms by simp

lemma wf_db_reachable: "wf_db (orders_db (snd (run qs init)))"
  by (rule wf_db_run) (simp add: init_def wf_db_def)

section \<open>The claims\<close>

subsection \<open>C1: the scanned count over sequences of requests\<close>




subsection \<open>C10: a scan request without an order id or a SKU\<close>

text \<open>
  C10. When \<^verbatim>\<open>orderId\<close> or \<^verbatim>\<open>sku\<close> is absent or the empty text, \<^verbatim>\<open>scan_order\<close> answers
  \<^verbatim>\<open>Missing required fields\<close> with status 400, which is not the 404 answer
  \<^verbatim>\<open>Order or SKU not found\<close>; the answer is the same for every content of the stores,
  and both stores are returned as they were.
\<close>

theorem scan_missing_fields:
  assumes "order_id = None \<or> order_id = Some [] \<or> k = None \<or> k = Some []"
  shows "scan_order e order_id k s = (MissingRequiredFields, s) \<and>
         MissingRequiredFields \<noteq> OrderOrSkuNotFound \<and>
         http_status MissingRequiredFields \<noteq> http_status OrderOrSkuNotFound"
  using scan_order_missing [OF assms] by simp

text \<open>An empty SKU for an order that exists, and an absent order id.\<close>

theorem scan_missing_fields_witness:
  "(Some ''1001'' = None \<or> Some ''1001'' = Some [] \<or> Some [] = (None :: string option) \<or> Some [] = Some ([] :: string)) \<and>
   scan_order env0 (Some ''1001'') (Some []) stores_a1 = (MissingRequiredFields, stores_a1) \<and>
   scan_order env0 None (Some ''A1'') stores_a1 = (MissingRequiredFields, stores_a1)"
  using scan_missing_fields [of "Some ''1001''" "Some []" env0 stores_a1]
    scan_missing_fields [of None "Some ''A1''" env0 stores_a1]
  by simp

subsection \<open>C4: when a scan answers \<^verbatim>\<open>Order or SKU not found\<close>\<close>

text \<open>
  C4, as amended. \<^verbatim>\<open>scan_order\<close> answers \<^verbatim>\<open>Order or SKU not found\<close> exactly when
  \<^verbatim>\<open>orderId\<close> and \<^verbatim>\<open>sku\<close> are both present and not empty and the order is not in the
  store or the SKU is not a key of that order's line items; with that answer both stores
  are returned as they were.
\<close>

theorem scan_not_found_iff:
  "(fst (scan_order e x y s) = OrderOrSkuNotFound \<longleftrightarrow>
      (\<exists>a b. x = Some a \<and> y = Some b \<and> a \<noteq> [] \<and> b \<noteq> [] \<and>
         (a \<notin> fst ` set (orders_db s) \<or>
          (\<exists>ord. map_of (orders_db s) a = Some ord \<and> b \<notin> fst ` set (SKUs ord))))) \<and>
   (fst (scan_order e x y s) = OrderOrSkuNotFound \<longrightarrow> snd (scan_order e x y s) = s)"
proof (cases "x = None \<or> x = Some [] \<or> y = None \<or> y = Some []")
  case True
  from scan_order_missing [OF this] True show ?thesis by auto
next
  case False
  then obtain a b where ab: "x = Some a" "y = Some b" "a \<noteq> []" "b \<noteq> []"
    by (cases x; cases y) auto
  show ?thesis
  proof (cases "lookup_item (orders_db s) a b")
    case None
    then have "a \<notin> fst ` set (orders_db s) \<or>
      (\<exists>ord. map_of (orders_db s) a = Some ord \<and> b \<notin> fst ` set (SKUs ord))"
      by (auto simp: lookup_item_def map_of_None_iff_keys split: option.splits)
    with scan_order_not_found [OF ab(3,4) None] ab show ?thesis by auto
  next
    case (Some it)
    then have "\<not> (a \<notin> fst ` set (orders_db s) \<or>
      (\<exists>ord. map_of (orders_db s) a = Some ord \<and> b \<notin> fst ` set (SKUs ord)))"
      by (auto simp: lookup_item_def map_of_None_iff_keys [symmetric] split: option.splits)
    with scan_order_found [OF ab(3,4) Some] ab show ?thesis by auto
  qed
qed

text \<open>An unknown order, and an unknown SKU of a known order.\<close>

theorem scan_not_found_iff_witness:
  "fst (scan_order env0 (Some ''9999'') (Some ''A1'') stores_a1) = OrderOrSkuNotFound \<and>
   snd (scan_order env0 (Some ''9999'') (Some ''A1'') stores_a1) = stores_a1 \<and>
   fst (scan_order env0 (Some ''1001'') (Some ''B7'') stores_a1) = OrderOrSkuNotFound \<and>
   snd (scan_order env0 (Some ''1001'') (Some ''B7'') stores_a1) = stores_a1"
proof -
  have h1: "fst (scan_order env0 (Some ''9999'') (Some ''A1'') stores_a1) = OrderOrSkuNotFound"
    by code_simp
  have h2: "fst (scan_order env0 (Some ''1001'') (Some ''B7'') stores_a1) = OrderOrSkuNotFound"
    by code_simp
  from h1 h2
    scan_not_found_iff [of env0 "Some ''9999''" "Some ''A1''" stores_a1]
    scan_not_found_iff [of env0 "Some ''1001''" "Some ''B7''" stores_a1]
  show ?thesis by blast
qed

text \<open>
  The claim C4 as it is written fails for the empty order id: no order has that key
  in the empty store, and the answer is \<^verbatim>\<open>Missing required fields\<close>, not
  \<^verbatim>\<open>Order or SKU not found\<close>.
\<close>

theorem scan_empty_id_counterexample:
  "map_of (orders_db init) [] = None \<and>
   fst (scan_order env0 (Some []) (Some ''A1'') init) = MissingRequiredFields \<and>
   fst (scan_order env0 (Some []) (Some ''A1'') init) \<noteq> OrderOrSkuNotFound"
  by (simp add: init_def)

subsection \<open>C5: what a successful scan does\<close>

text \<open>
  C5. (1) Every scan that answers \<^verbatim>\<open>Scan successful\<close> is for a line item that is in the
  store; it adds exactly 1 to the \<^verbatim>\<open>Scanned\<close> count of that item, sets its
  \<^verbatim>\<open>ScanTimestamp\<close> to the current time and appends exactly one log entry, whose
  details report the new count. (2) For a line item in the store (order id and SKU not
  empty), any number of scans of it all succeed and each adds 1: after \<open>n\<close> scans the
  count is the old count plus \<open>n\<close>, whatever \<^verbatim>\<open>Quantity\<close> is, so there is no upper bound.
\<close>

theorem scan_increments:
  "(scan_order e x y s = (ScanOk, s') \<longrightarrow>
      (\<exists>a b it. x = Some a \<and> y = Some b \<and> lookup_item (orders_db s) a b = Some it \<and>
         lookup_item (orders_db s') a b =
           Some (it\<lparr>Scanned := Scanned it + 1, ScanTimestamp := Some (now_minutes e)\<rparr>) \<and>
         logs_db s' = logs_db s @
           [\<lparr>log_id = uuid4 e, timestamp = now_seconds e,
             message = ''Item scanned: Order '' @ a @ '', SKU '' @ b,
             log_status = ''success'',
             details = Details (''Scanned count: '' @ str_int (Scanned it + 1))\<rparr>])) \<and>
   (a \<noteq> [] \<and> b \<noteq> [] \<and> lookup_item (orders_db s) a b = Some it \<longrightarrow>
      (\<exists>it'. fst (run (map (\<lambda>e. (e, Scan (Some a) (Some b))) es) s) = replicate (length es) ScanOk \<and>
         lookup_item (orders_db (snd (run (map (\<lambda>e. (e, Scan (Some a) (Some b))) es) s))) a b = Some it' \<and>
         Scanned it' = Scanned it + int (length es) \<and> Quantity it' = Quantity it \<and>
         length (logs_db (snd (run (map (\<lambda>e. (e, Scan (Some a) (Some b))) es) s))) =
           length (logs_db s) + length es))"
proof (intro conjI impI)
  assume ok: "scan_order e x y s = (ScanOk, s')"
  from scan_order_ok [OF ok] obtain a b it where
    ab: "x = Some a" "y = Some b" "a \<noteq> []" "b \<noteq> []" "lookup_item (orders_db s) a b = Some it"
    by blast
  from scan_order_found [OF ab(3,4,5), of e] scan_order_found_lookup [OF ab(3,4,5), of e a b] ok ab(1,2)
  have "lookup_item (orders_db s') a b =
           Some (it\<lparr>Scanned := Scanned it + 1, ScanTimestamp := Some (now_minutes e)\<rparr>) \<and>
         logs_db s' = logs_db s @
           [\<lparr>log_id = uuid4 e, timestamp = now_seconds e,
             message = ''Item scanned: Order '' @ a @ '', SKU '' @ b,
             log_status = ''success'',
             details = Details (''Scanned count: '' @ str_int (Scanned it + 1))\<rparr>]"
    by (auto simp: add_log_def simp del: scan_order.simps)
  with ab show "\<exists>a b it. x = Some a \<and> y = Some b \<and> lookup_item (orders_db s) a b = Some it \<and>
         lookup_item (orders_db s') a b =
           Some (it\<lparr>Scanned := Scanned it + 1, ScanTimestamp := Some (now_minutes e)\<rparr>) \<and>
         logs_db s' = logs_db s @
           [\<lparr>log_id = uuid4 e, timestamp = now_seconds e,
             message = ''Item scanned: Order '' @ a @ '', SKU '' @ b,
             log_status = ''success'',
             details = Details (''Scanned count: '' @ str_int (Scanned it + 1))\<rparr>]"
    by blast
next
  assume "a \<noteq> [] \<and> b \<noteq> [] \<and> lookup_item (orders_db s) a b = Some it"
  then have "a \<noteq> []" "b \<noteq> []" "lookup_item (orders_db s) a b = Some it"
    by simp_all
  from repeated_scans [OF this]
  show "\<exists>it'. fst (run (map (\<lambda>e. (e, Scan (Some a) (Some b))) es) s) = replicate (length es) ScanOk \<and>
         lookup_item (orders_db (snd (run (map (\<lambda>e. (e, Scan (Some a) (Some b))) es) s))) a b = Some it' \<and>
         Scanned it' = Scanned it + int (length es) \<and> Quantity it' = Quantity it \<and>
         length (logs_db (snd (run (map (\<lambda>e. (e, Scan (Some a) (Some b))) es) s))) =
           length (logs_db s) + length es"
    by blast
qed

text \<open>
  One successful scan, and four scans of an item whose quantity is 3: all succeed and
  the count, 4, exceeds the quantity.
\<close>

theorem scan_increments_witness:
  "scan_order env0 (Some ''1001'') (Some ''A1'') stores_a1 = (ScanOk, stores_a1_scanned) \<and>
   (\<exists>a b it. lookup_item (orders_db stores_a1) a b = Some it \<and>
      lookup_item (orders_db stores_a1_scanned) a b =
        Some (it\<lparr>Scanned := Scanned it + 1, ScanTimestamp := Some (now_minutes env0)\<rparr>) \<and>
      length (logs_db stores_a1_scanned) = length (logs_db stores_a1) + 1) \<and>
   (''1001'' \<noteq> [] \<and> ''A1'' \<noteq> [] \<and> lookup_item (orders_db stores_a1) ''1001'' ''A1'' = Some item_a1) \<and>
   (\<exists>it'. fst (run (map (\<lambda>e. (e, Scan (Some ''1001'') (Some ''A1''))) [env0, env0, env0, env0]) stores_a1)
            = replicate (length [env0, env0, env0, env0]) ScanOk \<and>
      lookup_item (orders_db (snd (run (map (\<lambda>e. (e, Scan (Some ''1001'') (Some ''A1'')))
          [env0, env0, env0, env0]) stores_a1))) ''1001'' ''A1'' = Some it' \<and>
      Scanned it' = Scanned item_a1 + int (length [env0, env0, env0, env0]) \<and>
      Quantity it' = Quantity item_a1 \<and> Quantity it' < Scanned it')"
proof -
  have h0: "scan_order env0 (Some ''1001'') (Some ''A1'') stores_a1 = (ScanOk, stores_a1_scanned)"
    by code_simp
  have h: "''1001'' \<noteq> [] \<and> ''A1'' \<noteq> [] \<and>
      lookup_item (orders_db stores_a1) ''1001'' ''A1'' = Some item_a1"
    by code_simp
  have q: "Quantity item_a1 < Scanned item_a1 + int (length [env0, env0, env0, env0])"
    by (simp add: item_a1_def)
  note th = scan_increments [of env0 "Some ''1001''" "Some ''A1''" stores_a1 stores_a1_scanned
      "''1001''" "''A1''" item_a1 "[env0, env0, env0, env0]"]
  from th h0 obtain a b it where
    one: "lookup_item (orders_db stores_a1) a b = Some it"
      "lookup_item (orders_db stores_a1_scanned) a b =
        Some (it\<lparr>Scanned := Scanned it + 1, ScanTimestamp := Some (now_minutes env0)\<rparr>)"
      "logs_db stores_a1_scanned = logs_db stores_a1 @
           [\<lparr>log_id = uuid4 env0, timestamp = now_seconds env0,
             message = ''Item scanned: Order '' @ a @ '', SKU '' @ b,
             log_status = ''success'',
             details = Details (''Scanned count: '' @ str_int (Scanned it + 1))\<rparr>]"
    by blast
  from one(3) have "length (logs_db stores_a1_scanned) = length (logs_db stores_a1) + 1"
    by simp
  with one(1,2) have p1: "\<exists>a b it. lookup_item (orders_db stores_a1) a b = Some it \<and>
      lookup_item (orders_db stores_a1_scanned) a b =
        Some (it\<lparr>Scanned := Scanned it + 1, ScanTimestamp := Some (now_minutes env0)\<rparr>) \<and>
      length (logs_db stores_a1_scanned) = length (logs_db stores_a1) + 1"
    by blast
  from th h obtain it' where
    many: "fst (run (map (\<lambda>e. (e, Scan (Some ''1001'') (Some ''A1''))) [env0, env0, env0, env0]) stores_a1)
            = replicate (length [env0, env0, env0, env0]) ScanOk"
      "lookup_item (orders_db (snd (run (map (\<lambda>e. (e, Scan (Some ''1001'') (Some ''A1'')))
          [env0, env0, env0, env0]) stores_a1))) ''1001'' ''A1'' = Some it'"
      "Scanned it' = Scanned item_a1 + int (length [env0, env0, env0, env0])"
      "Quantity it' = Quantity item_a1"
    by blast
  from many(3,4) q have "Quantity it' < Scanned it'"
    by (simp only:)
  with many have p2: "\<exists>it'. fst (run (map (\<lambda>e. (e, Scan (Some ''1001'') (Some ''A1''))) [env0, env0, env0, env0]) stores_a1)
            = replicate (length [env0, env0, env0, env0]) ScanOk \<and>
      lookup_item (orders_db (snd (run (map (\<lambda>e. (e, Scan (Some ''1001'') (Some ''A1'')))
          [env0, env0, env0, env0]) stores_a1))) ''1001'' ''A1'' = Some it' \<and>
      Scanned it' = Scanned item_a1 + int (length [env0, env0, env0, env0]) \<and>
      Quantity it' = Quantity item_a1 \<and> Quantity it' < Scanned it'"
    by blast
  from h0 h p1 p2 show ?thesis by blast
qed

subsection \<open>C9: an upload that fails part way\<close>

text \<open>
  C9. The upload is not atomic. When the rows \<open>pre\<close> are processed without an exception
  and the next row \<open>r\<close> raises \<open>err\<close>, the answer is the error response for \<open>err\<close>, the
  store is the one the failing pass over \<open>r\<close> leaves, in which every order that the rows
  \<open>pre\<close> wrote is still there with all its line items, and the rows after \<open>r\<close> are not
  processed: the outcome is that of the batch cut after \<open>r\<close>.
\<close>

theorem upload_not_atomic:
  assumes "process_rows (orders_db s) 0 pre = (dbp, Inr m)"
    and "process_row dbp r = (dbf, Some err)"
  shows "process_orders e (pre @ r # post) s =
           (ProcessingError err,
            \<lparr>orders_db = dbf,
             logs_db = add_log e ''File processing failed'' ''error'' (ExceptionText err)
                         (logs_db s)\<rparr>) \<and>
         (\<forall>a ord. map_of dbp a = Some ord \<longrightarrow> map_of dbf a = Some ord) \<and>
         process_orders e (pre @ r # post) s = process_orders e (pre @ [r]) s"
proof -
  have "process_rows (orders_db s) 0 (pre @ r # rest) = (dbf, Inl err)" for rest
    using assms by (rule process_rows_fail)
  then have "process_orders e (pre @ r # rest) s =
           (ProcessingError err,
            \<lparr>orders_db = dbf,
             logs_db = add_log e ''File processing failed'' ''error'' (ExceptionText err)
                         (logs_db s)\<rparr>)" for rest
    by (simp add: process_orders_def)
  from this [of post] this [of "[]"] process_row_fail_frame [OF assms(2)]
  show ?thesis by simp
qed

text \<open>
  A row with the quantity \<open>abc\<close> between two good rows: the item of the first row stays,
  the third row is not written.
\<close>

theorem upload_not_atomic_witness:
  "process_rows (orders_db init) 0 [row_a1] = (orders_db stores_a1, Inr 1) \<and>
   process_row (orders_db stores_a1) row_bad
     = (fst (process_row (orders_db stores_a1) row_bad), Some ValueError) \<and>
   fst (process_orders env0 ([row_a1] @ row_bad # [row_a2]) init) = ProcessingError ValueError \<and>
   lookup_item (orders_db (snd (process_orders env0 ([row_a1] @ row_bad # [row_a2]) init)))
     ''1001'' ''A1'' = Some item_a1 \<and>
   lookup_item (orders_db (snd (process_orders env0 ([row_a1] @ row_bad # [row_a2]) init)))
     ''1001'' ''A2'' = None"
proof -
  have h1: "process_rows (orders_db init) 0 [row_a1] = (orders_db stores_a1, Inr 1)"
    by code_simp
  have h2: "process_row (orders_db stores_a1) row_bad
     = (fst (process_row (orders_db stores_a1) row_bad), Some ValueError)"
    by code_simp
  have h3: "lookup_item (fst (process_row (orders_db stores_a1) row_bad)) ''1001'' ''A1'' = Some item_a1 \<and>
    lookup_item (fst (process_row (orders_db stores_a1) row_bad)) ''1001'' ''A2'' = None"
    by code_simp
  from upload_not_atomic [OF h1 h2, of env0 "[row_a2]"] h1 h2 h3
  show ?thesis by simp
qed

subsection \<open>C3: what an upload returns\<close>

text \<open>
  C3, as amended. An upload has one of two outcomes. Either every row is processed and
  the response carries \<^verbatim>\<open>processed_count\<close> equal to the number of rows; or some row
  raises an exception after the rows before it were processed, the batch stops there
  (the rows after it make no difference) and the response is the error response for that
  exception, which carries no count and no list of per-row errors.
\<close>

theorem process_orders_outcome:
  "(\<exists>db. process_rows (orders_db s) 0 rows = (db, Inr (length rows)) \<and>
          fst (process_orders e rows s) = UploadOk (length rows)) \<or>
   (\<exists>pre r post dbp db err.
          rows = pre @ r # post \<and>
          process_rows (orders_db s) 0 pre = (dbp, Inr (length pre)) \<and>
          process_row dbp r = (db, Some err) \<and>
          process_orders e rows s = process_orders e (pre @ [r]) s \<and>
          fst (process_orders e rows s) = ProcessingError err)"
proof -
  obtain db res where run: "process_rows (orders_db s) 0 rows = (db, res)"
    by (cases "process_rows (orders_db s) 0 rows")
  show ?thesis
  proof (cases res)
    case (Inr n)
    with run process_rows_Inr [of "orders_db s" 0 rows db n] show ?thesis
      by (simp add: process_orders_def)
  next
    case (Inl err)
    with run process_rows_Inl [of "orders_db s" 0 rows db err] obtain pre r post dbp where
      split: "rows = pre @ r # post" "process_rows (orders_db s) 0 pre = (dbp, Inr (length pre))"
        "process_row dbp r = (db, Some err)"
      by auto
    from process_rows_fail [OF split(2,3)] have
      "process_orders e (pre @ r # post) s = process_orders e (pre @ [r]) s"
      "fst (process_orders e (pre @ r # post) s) = ProcessingError err"
      by (simp_all add: process_orders_def)
    with split show ?thesis by blast
  qed
qed

text \<open>
  The claim C3 as it is written fails: with a failing first row the batch is aborted,
  the response has no count, and the second row, which is processed without an exception
  on its own, is not written.
\<close>

theorem upload_aborts_counterexample:
  "fst (process_orders env0 [row_bad, row_a1] init) = ProcessingError ValueError \<and>
   lookup_item (orders_db (snd (process_orders env0 [row_bad, row_a1] init))) ''1001'' ''A1'' = None \<and>
   snd (process_row (orders_db init) row_a1) = None"
  by code_simp

subsection \<open>C7: the order-level fields\<close>

text \<open>
  C7. (1) For an order that is already in the store, processing any rows leaves its
  \<^verbatim>\<open>State\<close>, \<^verbatim>\<open>City\<close>, \<^verbatim>\<open>Payment\<close> and \<^verbatim>\<open>Status\<close> as they are, whether the loop ends or
  raises. (2) When a row brings a new order id and is processed, these fields are taken
  from that row and stay so through all later rows of the batch.
\<close>

theorem order_fields_first_write_wins:
  "(map_of db a = Some ord \<longrightarrow>
      (\<exists>ord'. map_of (fst (process_rows db n rows)) a = Some ord' \<and> State ord' = State ord \<and>
         City ord' = City ord \<and> Payment ord' = Payment ord \<and> Status ord' = Status ord)) \<and>
   (map_of db (py_str (r ''OrderID'')) = None \<and> process_row db r = (db1, None) \<longrightarrow>
      (\<exists>ord'. map_of (fst (process_rows db n (r # rows))) (py_str (r ''OrderID'')) = Some ord' \<and>
         State ord' = r ''State'' \<and> City ord' = r ''City'' \<and>
         payment_of (r ''Payment'') = Inr (Payment ord') \<and> Status ord' = ''Pending''))"
proof (intro conjI impI)
  assume "map_of db a = Some ord"
  then show "\<exists>ord'. map_of (fst (process_rows db n rows)) a = Some ord' \<and> State ord' = State ord \<and>
         City ord' = City ord \<and> Payment ord' = Payment ord \<and> Status ord' = Status ord"
    by (rule process_rows_order_fields)
next
  assume a: "map_of db (py_str (r ''OrderID'')) = None \<and> process_row db r = (db1, None)"
  then have new: "map_of db (py_str (r ''OrderID'')) = None" and step: "process_row db r = (db1, None)"
    by simp_all
  from process_row_new_order [OF new step] obtain ord1 where
    ord1: "map_of db1 (py_str (r ''OrderID'')) = Some ord1" "State ord1 = r ''State''"
      "City ord1 = r ''City''" "payment_of (r ''Payment'') = Inr (Payment ord1)"
      "Status ord1 = ''Pending''"
    by blast
  from process_rows_order_fields [OF ord1(1), of "n + 1" rows] ord1(2-) step
  show "\<exists>ord'. map_of (fst (process_rows db n (r # rows))) (py_str (r ''OrderID'')) = Some ord' \<and>
         State ord' = r ''State'' \<and> City ord' = r ''City'' \<and>
         payment_of (r ''Payment'') = Inr (Payment ord') \<and> Status ord' = ''Pending''"
    by auto
qed

text \<open>
  Two rows of order \<open>1001\<close> with different state, city and payment: the order keeps
  those of the first row, in one batch and across two batches.
\<close>

theorem order_fields_first_write_wins_witness:
  "(map_of (orders_db init) (py_str (row_a1 ''OrderID'')) = None \<and>
    process_row (orders_db init) row_a1 = (orders_db stores_a1, None)) \<and>
   (\<exists>ord'. map_of (fst (process_rows (orders_db init) 0 (row_a1 # [row_a2]))) ''1001'' = Some ord' \<and>
      State ord' = CStr ''Tehran'' \<and> City ord' = CStr ''Tehran'' \<and> Payment ord' = Some ''20,000'') \<and>
   map_of (orders_db stores_a1) ''1001'' = Some order_a1 \<and>
   (\<exists>ord'. map_of (fst (process_rows (orders_db stores_a1) 0 [row_a2])) ''1001'' = Some ord' \<and>
      State ord' = State order_a1 \<and> City ord' = City order_a1 \<and> Payment ord' = Payment order_a1)"
proof -
  have h1: "map_of (orders_db init) (py_str (row_a1 ''OrderID'')) = None \<and>
    process_row (orders_db init) row_a1 = (orders_db stores_a1, None)"
    by code_simp
  have h2: "py_str (row_a1 ''OrderID'') = ''1001'' \<and> row_a1 ''State'' = CStr ''Tehran'' \<and>
    row_a1 ''City'' = CStr ''Tehran'' \<and> payment_of (row_a1 ''Payment'') = Inr (Some ''20,000'')"
    by code_simp
  have h3: "map_of (orders_db stores_a1) ''1001'' = Some order_a1"
    by code_simp
  from order_fields_first_write_wins
    [of "orders_db init" "''1001''" order_a1 0 "[row_a2]" row_a1 "orders_db stores_a1"] h1
  obtain ord' where
    "map_of (fst (process_rows (orders_db init) 0 (row_a1 # [row_a2]))) (py_str (row_a1 ''OrderID''))
       = Some ord'"
    "State ord' = row_a1 ''State''" "City ord' = row_a1 ''City''"
    "payment_of (row_a1 ''Payment'') = Inr (Payment ord')"
    by blast
  with h2 have p2: "\<exists>ord'. map_of (fst (process_rows (orders_db init) 0 (row_a1 # [row_a2]))) ''1001''
        = Some ord' \<and>
      State ord' = CStr ''Tehran'' \<and> City ord' = CStr ''Tehran'' \<and> Payment ord' = Some ''20,000''"
    by (simp del: process_rows.simps)
  from order_fields_first_write_wins
    [of "orders_db stores_a1" "''1001''" order_a1 0 "[row_a2]" row_a1 "orders_db stores_a1"] h3
  have p1: "\<exists>ord'. map_of (fst (process_rows (orders_db stores_a1) 0 [row_a2])) ''1001'' = Some ord' \<and>
      State ord' = State order_a1 \<and> City ord' = City order_a1 \<and> Payment ord' = Payment order_a1"
    by blast
  from h1 h3 p1 p2 show ?thesis by blast
qed

subsection \<open>C2: a row without an order identifier\<close>

text \<open>
  C2, as amended. A row whose order identifier is absent (\<^verbatim>\<open>None\<close> or \<^verbatim>\<open>NaN\<close>) or the
  empty text is not skipped and no row-level error is collected: \<^verbatim>\<open>str\<close> makes the key
  \<^verbatim>\<open>'None'\<close>, \<^verbatim>\<open>'nan'\<close> or \<^verbatim>\<open>''\<close> of it, and when the payment, quantity and price of
  the row convert, the pass over the row raises nothing, an order with that key is in
  the store afterwards with the row's line item, and the loop goes on with the remaining
  rows and the count increased by one.
\<close>

theorem row_without_order_id_is_processed:
  assumes "r ''OrderID'' = CNone \<or> r ''OrderID'' = CNaN \<or> r ''OrderID'' = CStr []"
    and "payment_of (r ''Payment'') = Inr p"
    and "new_item r = Inr it"
  shows "\<exists>db'. process_row db r = (db', None) \<and>
           (py_str (r ''OrderID'') = ''None'' \<or> py_str (r ''OrderID'') = ''nan'' \<or>
            py_str (r ''OrderID'') = []) \<and>
           map_of db' (py_str (r ''OrderID'')) \<noteq> None \<and>
           lookup_item db' (py_str (r ''OrderID'')) (py_str (r ''SKU'')) = Some it \<and>
           process_rows db n (r # rows) = process_rows db' (n + 1) rows"
proof -
  obtain db' where step: "process_row db r = (db', None)"
    using process_row_succeeds [OF assms(2,3), of db] by (cases "process_row db r") auto
  from process_row_ok [OF step] assms(3) have
    look: "lookup_item db' (py_str (r ''OrderID'')) (py_str (r ''SKU'')) = Some it"
    by auto
  from assms(1) have key: "py_str (r ''OrderID'') = ''None'' \<or> py_str (r ''OrderID'') = ''nan'' \<or>
            py_str (r ''OrderID'') = []"
    by auto
  from step key look lookup_item_Some_order [OF look] show ?thesis
    by simp
qed

theorem row_without_order_id_is_processed_witness:
  "(row_nan_id ''OrderID'' = CNone \<or> row_nan_id ''OrderID'' = CNaN \<or> row_nan_id ''OrderID'' = CStr []) \<and>
   payment_of (row_nan_id ''Payment'') = Inr None \<and>
   new_item row_nan_id = Inr \<lparr>Title = CNone, Color = CNone, Quantity = 1, Scanned = 0,
     Price = ''100'', ScanTimestamp = None\<rparr> \<and>
   (\<exists>db'. process_row (orders_db init) row_nan_id = (db', None) \<and>
      map_of db' (py_str (row_nan_id ''OrderID'')) \<noteq> None \<and>
      process_rows (orders_db init) 0 (row_nan_id # [row_a1]) = process_rows db' (0 + 1) [row_a1])"
proof -
  have h1: "row_nan_id ''OrderID'' = CNone \<or> row_nan_id ''OrderID'' = CNaN \<or>
      row_nan_id ''OrderID'' = CStr []"
    by code_simp
  have h2: "payment_of (row_nan_id ''Payment'') = Inr None"
    by code_simp
  have h3: "new_item row_nan_id = Inr \<lparr>Title = CNone, Color = CNone, Quantity = 1, Scanned = 0,
     Price = ''100'', ScanTimestamp = None\<rparr>"
    by code_simp
  from row_without_order_id_is_processed [OF h1 h2 h3, of "orders_db init" 0 "[row_a1]"] h1 h2 h3
  show ?thesis by blast
qed

text \<open>
  The claim C2 as it is written fails: a row with an empty order cell is counted like
  the good row after it, no error is reported, and an order with the key \<^verbatim>\<open>'nan'\<close> is
  created.
\<close>

theorem row_without_order_id_counterexample:
  "fst (process_orders env0 [row_nan_id, row_a1] init) = UploadOk 2 \<and>
   map fst (orders_db (snd (process_orders env0 [row_nan_id, row_a1] init))) = [''nan'', ''1001'']"
  by code_simp

subsection \<open>C8: the quantity of a row\<close>




subsection \<open>C6: the lines of \<^verbatim>\<open>get_orders\<close>\<close>

text \<open>
  C6. For stores with unique keys (as every Python dict has, and as every sequence of
  requests from the empty stores gives, \<open>wf_db_reachable\<close>), \<^verbatim>\<open>get_orders\<close> returns one
  line for each pair of an order id and a SKU of that order, and no other: the pairs of
  the lines are distinct and are exactly the pairs in the store. Each line carries the
  \<^verbatim>\<open>State\<close>, \<^verbatim>\<open>City\<close> and \<^verbatim>\<open>Payment\<close> of its order and the fields of its line item, and
  its \<^verbatim>\<open>status\<close> is computed from the two counts of the item: \<^verbatim>\<open>Fulfilled\<close> when
  \<^verbatim>\<open>Scanned >= Quantity\<close>, \<^verbatim>\<open>Pending\<close> otherwise. The stores are not changed.
\<close>

theorem get_orders_lines:
  assumes "wf_db (orders_db s)"
  shows "\<exists>ls. get_orders s = (OrdersData ls, s) \<and>
     distinct (map (\<lambda>l. (id' l, sku l)) ls) \<and>
     set (map (\<lambda>l. (id' l, sku l)) ls) = {(a, k). lookup_item (orders_db s) a k \<noteq> None} \<and>
     (\<forall>l \<in> set ls. \<exists>ord it.
         map_of (orders_db s) (id' l) = Some ord \<and> map_of (SKUs ord) (sku l) = Some it \<and>
         state l = State ord \<and> city l = City ord \<and> payment l = Payment ord \<and>
         title l = Title it \<and> color l = Color it \<and> price l = Price it \<and>
         quantity l = Quantity it \<and> scanned l = Scanned it \<and>
         status l = (if Quantity it \<le> Scanned it then ''Fulfilled'' else ''Pending''))"
proof -
  let ?db = "orders_db s"
  from assms have dk: "distinct (map fst ?db)"
    and ds: "\<And>a ord. (a, ord) \<in> set ?db \<Longrightarrow> distinct (map fst (SKUs ord))"
    by (auto simp: wf_db_def list_all_iff)
  have lines: "\<exists>ord it.
         map_of ?db (id' l) = Some ord \<and> map_of (SKUs ord) (sku l) = Some it \<and>
         state l = State ord \<and> city l = City ord \<and> payment l = Payment ord \<and>
         title l = Title it \<and> color l = Color it \<and> price l = Price it \<and>
         quantity l = Quantity it \<and> scanned l = Scanned it \<and>
         status l = (if Quantity it \<le> Scanned it then ''Fulfilled'' else ''Pending'')"
    if "l \<in> set (orders_list ?db)" for l
  proof -
    from that obtain a ord k d where
      l: "l = line_of a ord k d" and mem: "(a, ord) \<in> set ?db" "(k, d) \<in> set (SKUs ord)"
      by (auto simp: set_orders_list)
    from lookup_item_member [OF dk mem(1) ds [OF mem(1)] mem(2)]
    have "map_of ?db a = Some ord" "map_of (SKUs ord) k = Some d"
      by simp_all
    with l show ?thesis
      by (simp add: line_of_def)
  qed
  have keys: "set (map (\<lambda>l. (id' l, sku l)) (orders_list ?db)) =
      {(a, k). lookup_item ?db a k \<noteq> None}"
  proof (intro set_eqI iffI)
    fix x
    assume "x \<in> set (map (\<lambda>l. (id' l, sku l)) (orders_list ?db))"
    then obtain l where l: "l \<in> set (orders_list ?db)" "x = (id' l, sku l)"
      by auto
    from lines [OF l(1)] l(2) show "x \<in> {(a, k). lookup_item ?db a k \<noteq> None}"
      by (auto simp: lookup_item_def)
  next
    fix x
    assume "x \<in> {(a, k). lookup_item ?db a k \<noteq> None}"
    then obtain a k ord d where x: "x = (a, k)" and
      "map_of ?db a = Some ord" "map_of (SKUs ord) k = Some d"
      by (auto simp: lookup_item_def split: option.splits)
    then have "(a, ord) \<in> set ?db" "(k, d) \<in> set (SKUs ord)"
      by (auto dest: map_of_SomeD)
    then have "line_of a ord k d \<in> set (orders_list ?db)"
      by (auto simp: set_orders_list)
    then have "(id' (line_of a ord k d), sku (line_of a ord k d))
        \<in> set (map (\<lambda>l. (id' l, sku l)) (orders_list ?db))"
      by (simp only: set_map image_eqI)
    with x show "x \<in> set (map (\<lambda>l. (id' l, sku l)) (orders_list ?db))"
      by simp
  qed
  from distinct_keys_orders_list [OF assms] keys lines show ?thesis
    by (simp add: get_orders_def)
qed

text \<open>
  Order \<open>1001\<close> with \<open>A1\<close> (quantity 3) scanned three times and \<open>A2\<close> not scanned.
\<close>

theorem get_orders_lines_witness:
  "wf_db (orders_db stores_a12) \<and>
   (\<exists>ls. get_orders stores_a12 = (OrdersData ls, stores_a12) \<and>
      distinct (map (\<lambda>l. (id' l, sku l)) ls) \<and>
      map (\<lambda>l. (id' l, sku l, scanned l, status l)) ls =
        [(''1001'', ''A1'', 3, ''Fulfilled''), (''1001'', ''A2'', 0, ''Pending'')])"
proof -
  have h1: "wf_db (orders_db stores_a12)"
    by code_simp
  have h2: "map (\<lambda>l. (id' l, sku l, scanned l, status l)) (orders_list (orders_db stores_a12)) =
        [(''1001'', ''A1'', 3, ''Fulfilled''), (''1001'', ''A2'', 0, ''Pending'')]"
    by code_simp
  from get_orders_lines [OF h1] obtain ls where
    ls: "get_orders stores_a12 = (OrdersData ls, stores_a12)"
      "distinct (map (\<lambda>l. (id' l, sku l)) ls)"
    by blast
  from ls(1) have eq: "ls = orders_list (orders_db stores_a12)"
    by (simp add: get_orders_def)
  from h2 eq have "map (\<lambda>l. (id' l, sku l, scanned l, status l)) ls =
        [(''1001'', ''A1'', 3, ''Fulfilled''), (''1001'', ''A2'', 0, ''Pending'')]"
    by (simp only:)
  with ls have "\<exists>ls. get_orders stores_a12 = (OrdersData ls, stores_a12) \<and>
      distinct (map (\<lambda>l. (id' l, sku l)) ls) \<and>
      map (\<lambda>l. (id' l, sku l, scanned l, status l)) ls =
        [(''1001'', ''A1'', 3, ''Fulfilled''), (''1001'', ''A2'', 0, ''Pending'')]"
    by (intro exI [of _ ls] conjI)
  with h1 show ?thesis by (rule conjI)
qed

end
